theory Spec2Isabelle
  imports Main "HOL-Library.Word"
begin

section \<open>Text, pieces and the parts of package fmt that reader.go uses\<close>

text \<open>
  A Go string is modelled as the list of its Unicode code points, so that \<open>length\<close>
  counts display columns. Every string reader.go measures with \<open>len\<close> is ASCII, where
  bytes and code points coincide.
\<close>

type_synonym byte = "8 word"
type_synonym gostring = "nat list"

definition asc :: "string \<Rightarrow> gostring" where
  "asc s = map of_char s"

text \<open>The two non-ASCII glyphs of reader.go: U+2021 (the padding glyph) and U+250A (the splitter).\<close>

definition dagger :: nat where
  "dagger = 8225"

definition splitterGlyph :: gostring where
  "splitterGlyph = [9482]"

text \<open>
  The strings.Builder \<open>sb\<close> is modelled as the list of the pieces written to it, each
  tagged by where its text comes from: \<open>Marker\<close> for a color escape held in
  \<open>r.colors\<close>, \<open>Plain\<close> for everything else. \<open>String\<close> is the Go string the builder
  holds.
\<close>

datatype piece = Marker gostring | Plain gostring

fun pieceText :: "piece \<Rightarrow> gostring" where
  "pieceText (Marker s) = s"
| "pieceText (Plain s) = s"

definition String :: "piece list \<Rightarrow> gostring" where
  "String ps = concat (map pieceText ps)"

fun plainText :: "piece list \<Rightarrow> gostring" where
  "plainText [] = []"
| "plainText (Marker s # ps) = plainText ps"
| "plainText (Plain s # ps) = s @ plainText ps"

fun markers :: "piece list \<Rightarrow> gostring list" where
  "markers [] = []"
| "markers (Marker s # ps) = s # markers ps"
| "markers (Plain s # ps) = markers ps"

text \<open>Digits of a natural number in a base (2, 8, 10 or 16 here), lower case, most significant first.\<close>

definition digitRune :: "nat \<Rightarrow> nat" where
  "digitRune d = (if d < 10 then 48 + d else 87 + d)"

function digits :: "nat \<Rightarrow> nat \<Rightarrow> gostring" where
  "digits b n = (if b < 2 \<or> n < b then [digitRune n] else digits b (n div b) @ [digitRune (n mod b)])"
  by pat_completeness auto
termination
  by (relation "measure snd") auto

declare digits.simps [simp del]

text \<open>
  \<open>fmtInteger base wid n\<close> is \<open>fmt.Sprintf\<close> of the integer \<open>n\<close> under the verb of the
  base with the zero flag and width \<open>wid\<close> (\<open>%0<wid>x\<close>, \<open>%0<wid>d\<close>, \<open>%0<wid>o\<close>,
  \<open>%0<wid>b\<close>); width 0 stands for no width (\<open>%x\<close>). As in fmt, the sign of a negative
  number takes one column of the width and the zeros follow it.
\<close>

definition fmtInteger :: "nat \<Rightarrow> nat \<Rightarrow> int \<Rightarrow> gostring" where
  "fmtInteger base wid n =
     (let ds = digits base (nat \<bar>n\<bar>);
          prec = (if n < 0 then wid - 1 else wid)
      in (if n < 0 then asc ''-'' else []) @ replicate (prec - length ds) 48 @ ds)"

text \<open>
  \<open>fmtC r\<close> is \<open>fmt.Sprintf(`%c`, r)\<close> for a rune \<open>r\<close>: one code point, U+FFFD when
  \<open>r\<close> is not a valid one.
\<close>

definition fmtC :: "int \<Rightarrow> gostring" where
  "fmtC r = (if 0 \<le> r \<and> r \<le> 1114111 \<and> \<not> (55296 \<le> r \<and> r \<le> 57343) then [nat r] else [65533])"

section \<open>Declarations reader.go uses from the rest of the program\<close>

text \<open>
  Modelled from the spec: the declaration of type \<open>ByteFormatter\<close> is not in reader.go.
  Its variants are the seven reader.go switches on, which are the spec's seven.
\<close>

datatype ByteFormatter =
  ViewHex | ViewDec | ViewOct | ViewBit | ViewASCII | ViewHexWithASCII | ViewDecWithASCII

text \<open>
  Modelled from the spec: the declaration of type \<open>OffsetFormatter\<close> is not in reader.go.
  Its variants are the four reader.go names and the spec's fifth variant, none.
\<close>

datatype OffsetFormatter =
  OffsetHex | OffsetDec | OffsetOct | OffsetPercent | OffsetNone

text \<open>
  The float64 values \<open>formatOffset\<close> can compute. IEEE 754 gives a quotient by zero
  as NaN or an infinity; a finite quotient is kept as its two operands:
  \<open>FiniteQuot a b\<close> is the double \<open>float64(a) * 100.0 / float64(b)\<close> for \<open>b \<noteq> 0\<close>.
\<close>

datatype float64 = NaN | PosInf | NegInf | FiniteQuot int int

text \<open>
  The Printf formats \<open>New\<close> stores: \<open>Fmt_0x w\<close> is \<open>%0<w>x\<close>, \<open>Fmt_0d w\<close> is
  \<open>%0<w>d\<close>, \<open>Fmt_0o w\<close> is \<open>%0<w>o\<close> and \<open>Fmt_07_3f_pct\<close> is \<open>%07.3f%%\<close>.
\<close>

datatype offsetFormat = Fmt_0x nat | Fmt_0d nat | Fmt_0o nat | Fmt_07_3f_pct

datatype operand = Int64 int | Float64 float64

text \<open>
  What reader.go takes from declarations outside it, as parameters of the model:
  the table \<open>asciiByteToChar\<close> of package reader; of package color the constant
  \<open>SetForeground\<close>, the method \<open>AnsiColor.String\<close>, what \<open>%s\<close> prints for an
  \<open>AnsiColor\<close> value, and the three colors \<open>New\<close> names (\<open>'c\<close> is the type
  \<open>AnsiColor\<close>); and of package fmt the digits of a finite float64 under \<open>%07.3f\<close>
  (its rounding is not modelled) and the text of a format and operand that \<open>New\<close> never
  pairs (an integer format with a float64, the float format with an integer, or the
  empty format of a missing map entry).
\<close>

record 'c extern =
  asciiByteToChar :: "byte \<Rightarrow> int"
  SetForeground :: gostring
  AnsiColor_String :: "'c \<Rightarrow> gostring"
  AnsiColor_verb_s :: "'c \<Rightarrow> gostring"
  ColorGrey93_eeeeee :: 'c
  ColorGrey35_585858 :: 'c
  ColorGrey100_ffffff :: 'c
  fmtFiniteFloat :: "int \<Rightarrow> int \<Rightarrow> gostring"
  fmtUnpaired :: "offsetFormat option \<Rightarrow> operand \<Rightarrow> gostring"

text \<open>
  \<open>fmt.Sprintf(`%07.3f`, x)\<close>: fmt pads NaN and the infinities with spaces, not zeros, and
  prints the sign of an infinity.
\<close>

definition fmtFloat_07_3f :: "'c extern \<Rightarrow> float64 \<Rightarrow> gostring" where
  "fmtFloat_07_3f ext x =
     (case x of
        NaN \<Rightarrow> asc ''    NaN''
      | PosInf \<Rightarrow> asc ''   +Inf''
      | NegInf \<Rightarrow> asc ''   -Inf''
      | FiniteQuot a b \<Rightarrow> fmtFiniteFloat ext a b)"

text \<open>\<open>fmt.Sprintf(format, x)\<close> for a format read from \<open>offsetFormatterFormat\<close>.\<close>

definition Sprintf :: "'c extern \<Rightarrow> offsetFormat option \<Rightarrow> operand \<Rightarrow> gostring" where
  "Sprintf ext fm x =
     (case (fm, x) of
        (Some (Fmt_0x w), Int64 n) \<Rightarrow> fmtInteger 16 w n
      | (Some (Fmt_0d w), Int64 n) \<Rightarrow> fmtInteger 10 w n
      | (Some (Fmt_0o w), Int64 n) \<Rightarrow> fmtInteger 8 w n
      | (Some Fmt_07_3f_pct, Float64 y) \<Rightarrow> fmtFloat_07_3f ext y @ asc ''%''
      | _ \<Rightarrow> fmtUnpaired ext fm x)"

text \<open>
  The byte source, \<open>iface.ReadSeekerCloser\<close>: a state and the two methods reader.go
  calls. \<open>iface_Seek s offset whence\<close> returns the position and the error;
  \<open>iface_Read s p\<close> returns the slice \<open>p\<close> as the call leaves it, the count and the
  error. \<open>None\<close> is the nil error.
\<close>

datatype error = EOF | IOError nat

record 's ReadSeekerCloser =
  state :: 's
  iface_Seek :: "'s \<Rightarrow> int \<Rightarrow> int \<Rightarrow> (int \<times> error option) \<times> 's"
  iface_Read :: "'s \<Rightarrow> byte list \<Rightarrow> (byte list \<times> int \<times> error option) \<times> 's"

definition SeekCurrent :: int where
  "SeekCurrent = 1"

section \<open>reader.go\<close>

record 'c colors =
  palette :: "byte \<Rightarrow> gostring"
  SplitterColor :: 'c
  OffsetColor :: 'c
  splitterBreak :: gostring
  offsetBreak :: gostring
  specialBreak :: gostring
  hilightBreak :: gostring

subsection \<open>The body of the column loop of \<open>Reader.Read\<close>\<close>

text \<open>The switch of lines 187 to 216: what is written for a byte that was read.\<close>

definition renderPresent :: "'c extern \<Rightarrow> 'c colors \<Rightarrow> ByteFormatter \<Rightarrow> byte \<Rightarrow> piece list" where
  "renderPresent ext cs f b =
     (case f of
        ViewHex \<Rightarrow> [Plain (fmtInteger 16 2 (uint b))]
      | ViewDec \<Rightarrow> [Plain (fmtInteger 10 3 (uint b))]
      | ViewOct \<Rightarrow> [Plain (fmtInteger 8 3 (uint b))]
      | ViewBit \<Rightarrow> [Plain (fmtInteger 2 8 (uint b))]
      | ViewASCII \<Rightarrow> [Plain (fmtC (asciiByteToChar ext b))]
      | ViewHexWithASCII \<Rightarrow>
          [Marker (palette cs b),
           Plain (fmtInteger 16 2 (uint b) @ asc '' ''),
           Marker (specialBreak cs),
           Plain (asc ''[''),
           Marker (hilightBreak cs),
           Plain (fmtC (asciiByteToChar ext b)),
           Marker (specialBreak cs),
           Plain (asc '']'')]
      | ViewDecWithASCII \<Rightarrow>
          [Marker (palette cs b),
           Plain (fmtInteger 10 3 (uint b) @ asc '' ''),
           Marker (specialBreak cs),
           Plain (asc ''[''),
           Marker (hilightBreak cs),
           Plain (fmtC (asciiByteToChar ext b)),
           Marker (specialBreak cs),
           Plain (asc '']'')])"

text \<open>The switch of lines 233 to 244: what is written where no byte was read. It has no case for \<open>ViewBit\<close>.\<close>

definition renderAbsent :: "ByteFormatter \<Rightarrow> piece list" where
  "renderAbsent f =
     (case f of
        ViewHex \<Rightarrow> [Plain (replicate 2 dagger)]
      | ViewDec \<Rightarrow> [Plain (replicate 3 dagger)]
      | ViewOct \<Rightarrow> [Plain (replicate 3 dagger)]
      | ViewASCII \<Rightarrow> [Plain (replicate 1 dagger)]
      | ViewHexWithASCII \<Rightarrow> [Plain (replicate 6 dagger)]
      | ViewDecWithASCII \<Rightarrow> [Plain (replicate 7 dagger)]
      | ViewBit \<Rightarrow> [])"

text \<open>The switch inside \<open>if i < 15\<close> (lines 218 to 225 and 246 to 253).\<close>

definition separator :: "ByteFormatter \<Rightarrow> nat \<Rightarrow> piece list" where
  "separator f i =
     (if i < 15 then (case f of ViewASCII \<Rightarrow> [] | _ \<Rightarrow> [Plain (asc '' '')]) else [])"

text \<open>
  One turn of the loop \<open>for i := 0; i < 16; i++\<close>: \<open>tmp\<close> is the 16-byte buffer and
  \<open>rb\<close> the count the source returned.
\<close>

definition column :: "'c extern \<Rightarrow> 'c colors \<Rightarrow> ByteFormatter \<Rightarrow> byte list \<Rightarrow> int \<Rightarrow> nat \<Rightarrow> piece list" where
  "column ext cs f tmp rb i =
     (if i = 8 then [Plain (asc '' '')] else []) @
     (if rb > int i then
        (if i = 0 \<or> (i > 0 \<and> tmp ! i \<noteq> tmp ! (i - 1)) then [Marker (palette cs (tmp ! i))] else []) @
        renderPresent ext cs f (tmp ! i) @
        separator f i
      else
        (if i = 0 \<or> (i > 0 \<and> tmp ! i \<noteq> tmp ! (i - 1)) then [Marker (palette cs 0)] else []) @
        renderAbsent f @
        separator f i)"

text \<open>The loop \<open>for i := 0; i < 16; i++\<close> for one byte formatter.\<close>

definition columns :: "'c extern \<Rightarrow> 'c colors \<Rightarrow> ByteFormatter \<Rightarrow> byte list \<Rightarrow> int \<Rightarrow> piece list" where
  "columns ext cs f tmp rb = concat (map (column ext cs f tmp rb) [0..<16])"

subsection \<open>The Reader\<close>

record ('s, 'c) Reader =
  r :: "'s ReadSeekerCloser"
  charFormatters :: "ByteFormatter list"
  charFormatterCount :: int
  offsetFormatter :: "OffsetFormatter list"
  offsetFormatterCount :: int
  fileSize :: int
  ReadBytes :: "64 word"
  sb :: "piece list"
  Splitter :: gostring
  showHeader :: bool
  offsetFormatterFormat :: "OffsetFormatter \<rightharpoonup> offsetFormat"
  offsetFormatterWidth :: "OffsetFormatter \<rightharpoonup> nat"
  colors :: "'c colors"

datatype panic = PanicNilFormatter | PanicNoWidth

text \<open>
  The loop of \<open>New\<close> over the offset formatters (lines 74 to 109): it fills the width
  and the format tables, skips a formatter that has a width already and panics for one
  that gets none.
\<close>

fun offsetTables ::
  "int \<Rightarrow> OffsetFormatter list \<Rightarrow> (OffsetFormatter \<rightharpoonup> nat) \<Rightarrow> (OffsetFormatter \<rightharpoonup> offsetFormat)
     \<Rightarrow> panic + (OffsetFormatter \<rightharpoonup> nat) \<times> (OffsetFormatter \<rightharpoonup> offsetFormat)" where
  "offsetTables filesize [] wm fm = Inr (wm, fm)"
| "offsetTables filesize (f # fs) wm fm =
     (if wm f \<noteq> None then offsetTables filesize fs wm fm
      else
        (let wm' =
               (case f of
                  OffsetHex \<Rightarrow> wm(f \<mapsto> length (fmtInteger 16 0 filesize))
                | OffsetDec \<Rightarrow> wm(f \<mapsto> length (fmtInteger 16 0 filesize))
                | OffsetOct \<Rightarrow> wm(f \<mapsto> length (fmtInteger 16 0 filesize))
                | OffsetPercent \<Rightarrow> wm(f \<mapsto> 8)
                | OffsetNone \<Rightarrow> wm)
         in (case wm' f of
               None \<Rightarrow> Inl PanicNoWidth
             | Some width \<Rightarrow>
                 offsetTables filesize fs wm'
                   (case f of
                      OffsetHex \<Rightarrow> fm(f \<mapsto> Fmt_0x width)
                    | OffsetDec \<Rightarrow> fm(f \<mapsto> Fmt_0d width)
                    | OffsetOct \<Rightarrow> fm(f \<mapsto> Fmt_0o width)
                    | OffsetPercent \<Rightarrow> fm(f \<mapsto> Fmt_07_3f_pct)
                    | OffsetNone \<Rightarrow> fm))))"

text \<open>
  \<open>New\<close>. The formatters are \<open>None\<close> for Go's nil slice; \<open>pal\<close> is the palette
  argument, an array indexed by the byte.
\<close>

definition New ::
  "'c extern \<Rightarrow> 's ReadSeekerCloser \<Rightarrow> OffsetFormatter list \<Rightarrow> ByteFormatter list option
     \<Rightarrow> (byte \<Rightarrow> 'c) \<Rightarrow> bool \<Rightarrow> int \<Rightarrow> panic + ('s, 'c) Reader" where
  "New ext rs offs formatters pal showHdr filesize =
     (case formatters of
        None \<Rightarrow> Inl PanicNilFormatter
      | Some fs \<Rightarrow>
          (case offsetTables filesize offs Map.empty Map.empty of
             Inl p \<Rightarrow> Inl p
           | Inr (wm, fm) \<Rightarrow>
               Inr \<lparr> r = rs,
                     charFormatters = fs,
                     charFormatterCount = int (length fs),
                     offsetFormatter = offs,
                     offsetFormatterCount = int (length offs),
                     fileSize = filesize,
                     ReadBytes = 0,
                     sb = [],
                     Splitter = splitterGlyph,
                     showHeader = showHdr,
                     offsetFormatterFormat = fm,
                     offsetFormatterWidth = wm,
                     colors =
                       \<lparr> palette = (\<lambda>idx. SetForeground ext @ AnsiColor_String ext (pal idx)),
                         SplitterColor = ColorGrey93_eeeeee ext,
                         OffsetColor = ColorGrey93_eeeeee ext,
                         splitterBreak = SetForeground ext @ AnsiColor_verb_s ext (ColorGrey93_eeeeee ext),
                         offsetBreak = SetForeground ext @ AnsiColor_verb_s ext (ColorGrey93_eeeeee ext),
                         specialBreak = SetForeground ext @ AnsiColor_verb_s ext (ColorGrey35_585858 ext),
                         hilightBreak = SetForeground ext @ AnsiColor_verb_s ext (ColorGrey100_ffffff ext) \<rparr> \<rparr>))"

text \<open>
  \<open>percentOf offset fsize\<close> is \<open>(float64(offset) * 100.0) / float64(fsize)\<close>: the
  division has no guard, and a zero divisor gives NaN for the dividend 0 and an infinity
  of the dividend's sign otherwise.
\<close>

definition percentOf :: "int \<Rightarrow> int \<Rightarrow> float64" where
  "percentOf offset fsize =
     (if fsize = 0 then (if offset = 0 then NaN else if 0 < offset then PosInf else NegInf)
      else FiniteQuot offset fsize)"

definition formatOffset :: "'c extern \<Rightarrow> ('s, 'c) Reader \<Rightarrow> OffsetFormatter \<Rightarrow> int \<Rightarrow> ('s, 'c) Reader" where
  "formatOffset ext rd formatter offset =
     (case formatter of
        OffsetPercent \<Rightarrow>
          rd\<lparr>sb := sb rd @
            [Plain (Sprintf ext (offsetFormatterFormat rd formatter) (Float64 (percentOf offset (fileSize rd))))]\<rparr>
      | _ \<Rightarrow>
          rd\<lparr>sb := sb rd @ [Plain (Sprintf ext (offsetFormatterFormat rd formatter) (Int64 offset))]\<rparr>)"

text \<open>
  \<open>getoffsetLeft\<close> and \<open>getoffsetRight\<close> return the pieces of the builder (in Go, its
  string) and the Reader with the builder as they leave it. The index into
  \<open>offsetFormatter\<close> is in range for a Reader of \<open>New\<close>, whose count is the length.
\<close>

definition getoffsetLeft :: "'c extern \<Rightarrow> ('s, 'c) Reader \<Rightarrow> int \<Rightarrow> piece list \<times> ('s, 'c) Reader" where
  "getoffsetLeft ext rd offset =
     (let rd1 = rd\<lparr>sb := []\<rparr>;
          rd2 =
            (if offsetFormatterCount rd1 > 0 then
               (let a = rd1\<lparr>sb := sb rd1 @ [Marker (offsetBreak (colors rd1))]\<rparr>;
                    b = formatOffset ext a (offsetFormatter a ! 0) offset;
                    c = b\<lparr>sb := sb b @ [Marker (splitterBreak (colors b))]\<rparr>
                in c\<lparr>sb := sb c @ [Plain (Splitter c)]\<rparr>)
             else rd1)
      in (sb rd2, rd2))"

definition getoffsetRight :: "'c extern \<Rightarrow> ('s, 'c) Reader \<Rightarrow> int \<Rightarrow> piece list \<times> ('s, 'c) Reader" where
  "getoffsetRight ext rd offset =
     (let rd1 = rd\<lparr>sb := []\<rparr>;
          rd2 =
            (if offsetFormatterCount rd1 > 1 then
               (let a = rd1\<lparr>sb := sb rd1 @ [Marker (splitterBreak (colors rd1))]\<rparr>;
                    b = a\<lparr>sb := sb a @ [Plain (Splitter a)]\<rparr>;
                    c = b\<lparr>sb := sb b @ [Marker (offsetBreak (colors b))]\<rparr>
                in formatOffset ext c (offsetFormatter c ! 1) offset)
             else rd1)
      in (sb rd2, rd2))"

text \<open>The loop of \<open>Reader.Read\<close> over the byte formatters: what it writes to the builder.\<close>

fun formatterLoop ::
  "'c extern \<Rightarrow> ('s, 'c) Reader \<Rightarrow> byte list \<Rightarrow> int \<Rightarrow> nat \<Rightarrow> ByteFormatter list \<Rightarrow> piece list" where
  "formatterLoop ext rd tmp rb didx [] = []"
| "formatterLoop ext rd tmp rb didx (byteFormatterType # fs) =
     columns ext (colors rd) byteFormatterType tmp rb @
     (if int didx < charFormatterCount rd - 1
      then [Marker (splitterBreak (colors rd)), Plain (Splitter rd)] else []) @
     formatterLoop ext rd tmp rb (Suc didx) fs"

text \<open>
  The slice \<open>tmp\<close> has 16 bytes before and after the source's \<open>Read\<close>: \<open>slice16\<close>
  keeps that length for whatever list the model of a source returns.
\<close>

definition slice16 :: "byte list \<Rightarrow> byte list" where
  "slice16 p = take 16 (p @ replicate 16 0)"

text \<open>
  \<open>Reader.Read\<close> returns the line (its pieces) and the error, and the Reader as the call
  leaves it.
\<close>

definition Read :: "'c extern \<Rightarrow> ('s, 'c) Reader \<Rightarrow> (piece list \<times> error option) \<times> ('s, 'c) Reader" where
  "Read ext rd =
     (case iface_Seek (r rd) (state (r rd)) 0 SeekCurrent of
        ((offset, Some err), s1) \<Rightarrow> (([], Some err), rd\<lparr>r := (r rd)\<lparr>state := s1\<rparr>\<rparr>)
      | ((offset, None), s1) \<Rightarrow>
          (let rd1 = rd\<lparr>r := (r rd)\<lparr>state := s1\<rparr>\<rparr>;
               (offsetLeft, rd2) = getoffsetLeft ext rd1 offset;
               (offsetRight, rd3) = getoffsetRight ext rd2 offset;
               rd4 = rd3\<lparr>sb := offsetLeft\<rparr>
           in (case iface_Read (r rd4) s1 (replicate 16 0) of
                 ((p, rb, Some err), s2) \<Rightarrow> (([], Some err), rd4\<lparr>r := (r rd4)\<lparr>state := s2\<rparr>\<rparr>)
               | ((p, rb, None), s2) \<Rightarrow>
                   (let rd5 = rd4\<lparr>r := (r rd4)\<lparr>state := s2\<rparr>, ReadBytes := ReadBytes rd4 + word_of_int rb\<rparr>;
                        rd6 = rd5\<lparr>sb := sb rd5 @ formatterLoop ext rd5 (slice16 p) rb 0 (charFormatters rd5)\<rparr>;
                        rd7 = rd6\<lparr>sb := sb rd6 @ offsetRight\<rparr>
                    in ((sb rd7, None), rd7)))))"

subsection \<open>The header\<close>

definition offsetHeader :: "('s, 'c) Reader \<Rightarrow> OffsetFormatter \<Rightarrow> gostring" where
  "offsetHeader rd otype =
     (let width = (case offsetFormatterWidth rd otype of None \<Rightarrow> 0 | Some w \<Rightarrow> w)
      in replicate width 95)"

definition header :: "nat \<Rightarrow> gostring" where
  "header l =
     concat (map (\<lambda>i. (if i = 8 then asc '' '' else []) @
                       fmtInteger 16 l (int i) @
                       (if l > 1 \<and> i < 15 then asc '' '' else []))
               [0..<16])"

text \<open>
  The switch of \<open>Reader.Header\<close> (lines 305 to 314). It has no case for
  \<open>ViewHexWithASCII\<close> and \<open>ViewDecWithASCII\<close>.
\<close>

definition headerLabels :: "ByteFormatter \<Rightarrow> piece list" where
  "headerLabels dplay =
     (case dplay of
        ViewHex \<Rightarrow> [Plain (header 2)]
      | ViewASCII \<Rightarrow> [Plain (header 1)]
      | ViewDec \<Rightarrow> [Plain (header 3)]
      | ViewOct \<Rightarrow> [Plain (header 3)]
      | ViewBit \<Rightarrow> [Plain (header 8)]
      | ViewHexWithASCII \<Rightarrow> []
      | ViewDecWithASCII \<Rightarrow> [])"

fun headerLoop :: "('s, 'c) Reader \<Rightarrow> nat \<Rightarrow> ByteFormatter list \<Rightarrow> piece list" where
  "headerLoop rd didx [] = []"
| "headerLoop rd didx (dplay # ds) =
     [Marker (offsetBreak (colors rd))] @
     headerLabels dplay @
     (if int didx < charFormatterCount rd - 1
      then [Marker (splitterBreak (colors rd)), Plain (Splitter rd)] else []) @
     headerLoop rd (Suc didx) ds"

definition Header :: "('s, 'c) Reader \<Rightarrow> piece list" where
  "Header rd =
     (if \<not> showHeader rd then []
      else
        (if offsetFormatterCount rd > 0
         then [Marker (offsetBreak (colors rd)),
               Plain (offsetHeader rd (offsetFormatter rd ! 0)),
               Marker (splitterBreak (colors rd)),
               Plain (Splitter rd)]
         else []) @
        headerLoop rd 0 (charFormatters rd) @
        (if offsetFormatterCount rd > 1
         then [Marker (splitterBreak (colors rd)),
               Plain (Splitter rd),
               Marker (offsetBreak (colors rd)),
               Plain (offsetHeader rd (offsetFormatter rd ! 1))]
         else []) @
        [Plain [10]])"

section \<open>Sample instances, for running the model on concrete inputs\<close>

text \<open>
  An instance of the outside declarations: colors are numbers of the 256-color table, a
  color prints as its number and \<open>m\<close>, \<open>SetForeground\<close> is the escape \<open>ESC[38;5;\<close>,
  and the table shows printable ASCII as itself and every other byte as a dot.
\<close>

definition sampleExtern :: "nat extern" where
  "sampleExtern =
     \<lparr> asciiByteToChar = (\<lambda>b. if 32 \<le> uint b \<and> uint b < 127 then uint b else 46),
       SetForeground = 27 # asc ''[38;5;'',
       AnsiColor_String = (\<lambda>c. digits 10 c @ asc ''m''),
       AnsiColor_verb_s = (\<lambda>c. digits 10 c @ asc ''m''),
       ColorGrey93_eeeeee = 255,
       ColorGrey35_585858 = 240,
       ColorGrey100_ffffff = 231,
       fmtFiniteFloat = (\<lambda>a b. asc ''???.???''),
       fmtUnpaired = (\<lambda>fm x. asc ''%!'') \<rparr>"

definition samplePalette :: "byte \<Rightarrow> nat" where
  "samplePalette b = unat b"

text \<open>
  A source over a byte list, as \<open>bytes.Reader\<close> behaves: the state is the data and the
  position; \<open>Read\<close> copies what is left, up to the length of the slice, and returns
  \<open>EOF\<close> with count 0 at the end.
\<close>

definition bytesSource :: "byte list \<Rightarrow> (byte list \<times> nat) ReadSeekerCloser" where
  "bytesSource bs =
     \<lparr> state = (bs, 0),
       iface_Seek = (\<lambda>(d, p) offset whence.
          (let q = (if whence = 0 then offset else if whence = 1 then int p + offset else int (length d) + offset)
           in if q < 0 then ((0, Some (IOError 22)), (d, p)) else ((q, None), (d, nat q)))),
       iface_Read = (\<lambda>(d, p) buf.
          if length d \<le> p then ((buf, 0, Some EOF), (d, p))
          else (let n = min (length buf) (length d - p)
                in ((take n (drop p d) @ drop n buf, int n, None), (d, p + n)))) \<rparr>"

text \<open>A source whose \<open>Seek\<close> and \<open>Read\<close> return the given errors and move nothing.\<close>

definition failingSource :: "error option \<Rightarrow> error option \<Rightarrow> unit ReadSeekerCloser" where
  "failingSource seekErr readErr =
     \<lparr> state = (),
       iface_Seek = (\<lambda>s offset whence. ((0, seekErr), s)),
       iface_Read = (\<lambda>s buf. ((buf, 0, readErr), s)) \<rparr>"

text \<open>A Reader of \<open>New\<close> over the sample instances (\<open>New\<close> does not panic for them, see \<open>New_sample\<close>).\<close>

definition sampleReader ::
  "byte list \<Rightarrow> OffsetFormatter list \<Rightarrow> ByteFormatter list \<Rightarrow> int \<Rightarrow> (byte list \<times> nat, nat) Reader" where
  "sampleReader bs offs fs fsz =
     projr (New sampleExtern (bytesSource bs) offs (Some fs) samplePalette True fsz)"

definition sampleColors :: "nat colors" where
  "sampleColors = colors (sampleReader [] [] [ViewHex] 0)"

text \<open>A Reader of \<open>New\<close> over a failing source, with \<open>n\<close> bytes counted so far.\<close>

definition failingReader :: "error option \<Rightarrow> error option \<Rightarrow> 64 word \<Rightarrow> (unit, nat) Reader" where
  "failingReader seekErr readErr n =
     (projr (New sampleExtern (failingSource seekErr readErr) [OffsetHex] (Some [ViewHex]) samplePalette True 0))
       \<lparr>ReadBytes := n\<rparr>"

section \<open>Notions the claims are stated with\<close>

text \<open>The declared widths of the spec's byte formatter table.\<close>

definition declaredWidth :: "ByteFormatter \<Rightarrow> nat" where
  "declaredWidth f =
     (case f of ViewHex \<Rightarrow> 2 | ViewDec \<Rightarrow> 3 | ViewOct \<Rightarrow> 3 | ViewBit \<Rightarrow> 8 | ViewASCII \<Rightarrow> 1
      | ViewHexWithASCII \<Rightarrow> 6 | ViewDecWithASCII \<Rightarrow> 7)"

text \<open>
  \<open>preceded ps\<close> lists the plain texts of \<open>ps\<close> in order, each with the marker written
  immediately before it, if there is one.
\<close>

fun preceded :: "piece list \<Rightarrow> (gostring option \<times> gostring) list" where
  "preceded [] = []"
| "preceded [Marker m] = []"
| "preceded (Marker m # Marker m' # ps) = preceded (Marker m' # ps)"
| "preceded (Marker m # Plain s # ps) = (Some m, s) # preceded ps"
| "preceded (Plain s # ps) = (None, s) # preceded ps"

text \<open>
  The number of hexadecimal digits needed to write \<open>n\<close>: by \<open>hexDigitsNeeded_upper\<close> and
  \<open>hexDigitsNeeded_lower\<close> it is the \<open>k\<close> with \<open>16 ^ (k - 1) \<le> n < 16 ^ k\<close>, and 1 for 0.
\<close>

function hexDigitsNeeded :: "nat \<Rightarrow> nat" where
  "hexDigitsNeeded n = (if n < 16 then 1 else Suc (hexDigitsNeeded (n div 16)))"
  by pat_completeness auto
termination
  by (relation "measure id") auto

declare hexDigitsNeeded.simps [simp del]

section \<open>Derived forms of the offset columns and of the line\<close>

text \<open>The text \<open>formatOffset\<close> appends to the builder.\<close>

definition offsetText :: "'c extern \<Rightarrow> ('s, 'c) Reader \<Rightarrow> OffsetFormatter \<Rightarrow> int \<Rightarrow> gostring" where
  "offsetText ext rd formatter offset =
     (case formatter of
        OffsetPercent \<Rightarrow>
          Sprintf ext (offsetFormatterFormat rd formatter) (Float64 (percentOf offset (fileSize rd)))
      | _ \<Rightarrow> Sprintf ext (offsetFormatterFormat rd formatter) (Int64 offset))"

text \<open>What \<open>getoffsetLeft\<close> and \<open>getoffsetRight\<close> return, and the line of a successful \<open>Read\<close>.\<close>

definition leftPieces :: "'c extern \<Rightarrow> ('s, 'c) Reader \<Rightarrow> int \<Rightarrow> piece list" where
  "leftPieces ext rd offset =
     (if offsetFormatterCount rd > 0
      then [Marker (offsetBreak (colors rd)), Plain (offsetText ext rd (offsetFormatter rd ! 0) offset),
            Marker (splitterBreak (colors rd)), Plain (Splitter rd)]
      else [])"

definition rightPieces :: "'c extern \<Rightarrow> ('s, 'c) Reader \<Rightarrow> int \<Rightarrow> piece list" where
  "rightPieces ext rd offset =
     (if offsetFormatterCount rd > 1
      then [Marker (splitterBreak (colors rd)), Plain (Splitter rd),
            Marker (offsetBreak (colors rd)), Plain (offsetText ext rd (offsetFormatter rd ! 1) offset)]
      else [])"

definition linePieces :: "'c extern \<Rightarrow> ('s, 'c) Reader \<Rightarrow> int \<Rightarrow> byte list \<Rightarrow> int \<Rightarrow> piece list" where
  "linePieces ext rd offset p rb =
     leftPieces ext rd offset @
     formatterLoop ext rd (slice16 p) rb 0 (charFormatters rd) @
     rightPieces ext rd offset"

section \<open>Widths of formatted numbers\<close>

lemma length_digits_le:
  "2 \<le> b \<Longrightarrow> 0 < k \<Longrightarrow> n < b ^ k \<Longrightarrow> length (digits b n) \<le> k"
proof (induction k arbitrary: n)
  case 0
  then show ?case by simp
next
  case (Suc k)
  show ?case
  proof (cases "n < b")
    case True
    then show ?thesis by (simp add: digits.simps [of b n])
  next
    case False
    with Suc.prems have kpos: "0 < k"
      by (cases k) auto
    from Suc.prems have "n div b < b ^ k"
      by (simp add: less_mult_imp_div_less mult.commute)
    with Suc.IH [OF Suc.prems(1) kpos] have "length (digits b (n div b)) \<le> k" .
    with False Suc.prems(1) show ?thesis by (simp add: digits.simps [of b n])
  qed
qed

lemma length_fmtInteger_fits:
  assumes "2 \<le> b" and "0 < w" and "0 \<le> n" and "nat n < b ^ w"
  shows "length (fmtInteger b w n) = w"
proof -
  have "length (digits b (nat n)) \<le> w"
    using assms by (intro length_digits_le) auto
  with assms(3) show ?thesis by (simp add: fmtInteger_def Let_def)
qed

lemma length_fmtInteger_byte:
  assumes "2 \<le> b" and "0 < w" and "256 \<le> b ^ w"
  shows "length (fmtInteger b w (uint (x :: byte))) = w"
proof -
  have "uint x < 256"
    using uint_bounded [of x] by simp
  then have "nat (uint x) < b ^ w"
    using assms(3) by linarith
  with assms show ?thesis
    by (intro length_fmtInteger_fits) auto
qed

lemma length_fmtC: "length (fmtC x) = 1"
  by (simp add: fmtC_def)

lemma hexDigitsNeeded_pos: "0 < hexDigitsNeeded n"
  by (subst hexDigitsNeeded.simps) simp

lemma hexDigitsNeeded_upper: "n < 16 ^ hexDigitsNeeded n"
proof (induction n rule: hexDigitsNeeded.induct)
  case (1 n)
  show ?case
  proof (cases "n < 16")
    case True
    then show ?thesis by (simp add: hexDigitsNeeded.simps [of n])
  next
    case False
    with "1" have "n div 16 < 16 ^ hexDigitsNeeded (n div 16)" by simp
    then have "n < 16 * 16 ^ hexDigitsNeeded (n div 16)"
      by (simp add: div_less_iff_less_mult mult.commute)
    with False show ?thesis by (simp add: hexDigitsNeeded.simps [of n])
  qed
qed

lemma hexDigitsNeeded_lower: "0 < n \<Longrightarrow> 16 ^ (hexDigitsNeeded n - 1) \<le> n"
proof (induction n rule: hexDigitsNeeded.induct)
  case (1 n)
  show ?case
  proof (cases "n < 16")
    case True
    with "1.prems" show ?thesis by (simp add: hexDigitsNeeded.simps [of n])
  next
    case False
    then have pos: "0 < n div 16" by simp
    with "1.IH" False have "16 ^ (hexDigitsNeeded (n div 16) - 1) \<le> n div 16" by simp
    then have "16 * 16 ^ (hexDigitsNeeded (n div 16) - 1) \<le> n"
    proof -
      assume "16 ^ (hexDigitsNeeded (n div 16) - 1) \<le> n div 16"
      then have "16 * 16 ^ (hexDigitsNeeded (n div 16) - 1) \<le> 16 * (n div 16)"
        by (rule mult_le_mono2)
      also have "16 * (n div 16) \<le> n" by simp
      finally show ?thesis .
    qed
    moreover have "hexDigitsNeeded n - 1 = Suc (hexDigitsNeeded (n div 16) - 1)"
      using False hexDigitsNeeded_pos [of "n div 16"] by (simp add: hexDigitsNeeded.simps [of n])
    ultimately show ?thesis by simp
  qed
qed

lemma length_digits_16: "length (digits 16 n) = hexDigitsNeeded n"
proof (induction n rule: hexDigitsNeeded.induct)
  case (1 n)
  show ?case
  proof (cases "n < 16")
    case True
    then show ?thesis by (simp add: hexDigitsNeeded.simps [of n] digits.simps [of 16 n])
  next
    case False
    with "1" show ?thesis by (simp add: hexDigitsNeeded.simps [of n] digits.simps [of 16 n])
  qed
qed

lemma length_fmtInteger_x: "0 \<le> n \<Longrightarrow> length (fmtInteger 16 0 n) = hexDigitsNeeded (nat n)"
  by (simp add: fmtInteger_def Let_def length_digits_16)

section \<open>The tables \<open>New\<close> builds\<close>

lemma offsetTables_step:
  assumes "wm a = None" and "offsetTables fsz (a # offs) wm fm = Inr res"
  shows "\<exists>wm1 fm1. offsetTables fsz offs wm1 fm1 = Inr res
           \<and> (\<forall>g. g \<noteq> a \<longrightarrow> wm1 g = wm g)
           \<and> (a = OffsetHex \<or> a = OffsetDec \<or> a = OffsetOct \<longrightarrow> wm1 a = Some (length (fmtInteger 16 0 fsz)))"
proof (cases a)
  case OffsetHex
  with assms show ?thesis
    by (intro exI [of _ "wm(a \<mapsto> length (fmtInteger 16 0 fsz))"]
              exI [of _ "fm(a \<mapsto> Fmt_0x (length (fmtInteger 16 0 fsz)))"]) simp
next
  case OffsetDec
  with assms show ?thesis
    by (intro exI [of _ "wm(a \<mapsto> length (fmtInteger 16 0 fsz))"]
              exI [of _ "fm(a \<mapsto> Fmt_0d (length (fmtInteger 16 0 fsz)))"]) simp
next
  case OffsetOct
  with assms show ?thesis
    by (intro exI [of _ "wm(a \<mapsto> length (fmtInteger 16 0 fsz))"]
              exI [of _ "fm(a \<mapsto> Fmt_0o (length (fmtInteger 16 0 fsz)))"]) simp
next
  case OffsetPercent
  with assms show ?thesis
    by (intro exI [of _ "wm(a \<mapsto> 8)"] exI [of _ "fm(a \<mapsto> Fmt_07_3f_pct)"]) simp
next
  case OffsetNone
  with assms show ?thesis by simp
qed

lemma offsetTables_keeps:
  "offsetTables fsz offs wm fm = Inr (wm', fm') \<Longrightarrow> wm f = Some w \<Longrightarrow> wm' f = Some w"
proof (induction offs arbitrary: wm fm)
  case Nil
  then show ?case by simp
next
  case (Cons a offs)
  show ?case
  proof (cases "wm a = None")
    case False
    with Cons.prems(1) have "offsetTables fsz offs wm fm = Inr (wm', fm')" by auto
    from Cons.IH [OF this Cons.prems(2)] show ?thesis .
  next
    case True
    with Cons.prems(2) have ne: "f \<noteq> a" by auto
    from offsetTables_step [OF True Cons.prems(1)] obtain wm1 fm1 where
      rec: "offsetTables fsz offs wm1 fm1 = Inr (wm', fm')" and same: "\<forall>g. g \<noteq> a \<longrightarrow> wm1 g = wm g"
      by blast
    from same ne Cons.prems(2) have "wm1 f = Some w" by simp
    from Cons.IH [OF rec this] show ?thesis .
  qed
qed

lemma offsetTables_width:
  "offsetTables fsz offs wm fm = Inr (wm', fm') \<Longrightarrow> f \<in> set offs \<Longrightarrow> wm f = None
     \<Longrightarrow> f = OffsetHex \<or> f = OffsetDec \<or> f = OffsetOct
     \<Longrightarrow> wm' f = Some (length (fmtInteger 16 0 fsz))"
proof (induction offs arbitrary: wm fm)
  case Nil
  then show ?case by simp
next
  case (Cons a offs)
  show ?case
  proof (cases "wm a = None")
    case False
    with Cons.prems(3) have "f \<noteq> a" by auto
    with Cons.prems(2) have mem: "f \<in> set offs" by simp
    from False Cons.prems(1) have "offsetTables fsz offs wm fm = Inr (wm', fm')" by auto
    from Cons.IH [OF this mem Cons.prems(3,4)] show ?thesis .
  next
    case True
    from offsetTables_step [OF True Cons.prems(1)] obtain wm1 fm1 where
      rec: "offsetTables fsz offs wm1 fm1 = Inr (wm', fm')" and
      same: "\<forall>g. g \<noteq> a \<longrightarrow> wm1 g = wm g" and
      new: "a = OffsetHex \<or> a = OffsetDec \<or> a = OffsetOct \<longrightarrow> wm1 a = Some (length (fmtInteger 16 0 fsz))"
      by blast
    show ?thesis
    proof (cases "f = a")
      case True
      with new Cons.prems(4) have "wm1 f = Some (length (fmtInteger 16 0 fsz))" by blast
      from offsetTables_keeps [OF rec this] show ?thesis .
    next
      case False
      with Cons.prems(2) have mem: "f \<in> set offs" by simp
      from same False Cons.prems(3) have "wm1 f = None" by simp
      from Cons.IH [OF rec mem this Cons.prems(4)] show ?thesis .
    qed
  qed
qed

text \<open>\<open>New\<close> returns a Reader when the formatters are not nil and every offset formatter gets a width.\<close>

lemma offsetTables_succeeds:
  "OffsetNone \<notin> set offs \<Longrightarrow> \<exists>wm' fm'. offsetTables fsz offs wm fm = Inr (wm', fm')"
proof (induction offs arbitrary: wm fm)
  case Nil
  then show ?case by simp
next
  case (Cons a offs)
  then have rest: "\<And>wm fm. \<exists>wm' fm'. offsetTables fsz offs wm fm = Inr (wm', fm')" and a: "a \<noteq> OffsetNone"
    by auto
  show ?case
  proof (cases "wm a = None")
    case False
    with rest [of wm fm] show ?thesis by auto
  next
    case True
    with a show ?thesis
      by (cases a) (simp_all add: rest)
  qed
qed

lemma New_succeeds:
  "OffsetNone \<notin> set offs \<Longrightarrow> \<exists>rd. New ext rs offs (Some fs) pal showHdr fsz = Inr rd"
  using offsetTables_succeeds [of offs fsz Map.empty Map.empty]
  by (auto simp: New_def split: sum.splits)

lemma New_fields:
  assumes "New ext rs offs formatters pal showHdr fsz = Inr rd"
  shows "r rd = rs" and "ReadBytes rd = 0" and "fileSize rd = fsz" and "showHeader rd = showHdr"
    and "offsetFormatter rd = offs" and "offsetFormatterCount rd = int (length offs)"
    and "formatters = Some (charFormatters rd)" and "charFormatterCount rd = int (length (charFormatters rd))"
    and "Splitter rd = splitterGlyph"
    and "palette (colors rd) = (\<lambda>idx. SetForeground ext @ AnsiColor_String ext (pal idx))"
  using assms by (auto simp: New_def split: option.splits sum.splits)

lemma New_sample:
  "OffsetNone \<notin> set offs \<Longrightarrow>
     New sampleExtern (bytesSource bs) offs (Some fs) samplePalette True fsz = Inr (sampleReader bs offs fs fsz)"
  using New_succeeds [of offs sampleExtern "bytesSource bs" fs samplePalette True fsz]
  by (auto simp: sampleReader_def)

section \<open>The offset columns and \<open>Read\<close>, case by case\<close>

lemma formatOffset_sb:
  "formatOffset ext rd f off = rd\<lparr>sb := sb rd @ [Plain (offsetText ext rd f off)]\<rparr>"
  by (cases f) (simp_all add: formatOffset_def offsetText_def)

lemma offsetText_sb [simp]: "offsetText ext (rd\<lparr>sb := x\<rparr>) f off = offsetText ext rd f off"
  by (cases f) (simp_all add: offsetText_def)

lemma offsetText_r [simp]: "offsetText ext (rd\<lparr>r := x\<rparr>) f off = offsetText ext rd f off"
  by (cases f) (simp_all add: offsetText_def)

lemma getoffsetLeft_eq:
  "getoffsetLeft ext rd off = (leftPieces ext rd off, rd\<lparr>sb := leftPieces ext rd off\<rparr>)"
  by (simp add: getoffsetLeft_def leftPieces_def formatOffset_sb Let_def)

lemma getoffsetRight_eq:
  "getoffsetRight ext rd off = (rightPieces ext rd off, rd\<lparr>sb := rightPieces ext rd off\<rparr>)"
  by (simp add: getoffsetRight_def rightPieces_def formatOffset_sb Let_def)

lemma leftPieces_r [simp]: "leftPieces ext (rd\<lparr>r := x\<rparr>) off = leftPieces ext rd off"
  by (simp add: leftPieces_def)

lemma rightPieces_r [simp]: "rightPieces ext (rd\<lparr>r := x\<rparr>) off = rightPieces ext rd off"
  by (simp add: rightPieces_def)

lemma rightPieces_sb [simp]: "rightPieces ext (rd\<lparr>sb := x\<rparr>) off = rightPieces ext rd off"
  by (simp add: rightPieces_def)

lemma formatterLoop_frame:
  "colors rd' = colors rd \<Longrightarrow> charFormatterCount rd' = charFormatterCount rd \<Longrightarrow> Splitter rd' = Splitter rd
     \<Longrightarrow> formatterLoop ext rd' tmp rb didx fs = formatterLoop ext rd tmp rb didx fs"
  by (induction fs arbitrary: didx) simp_all

lemma formatterLoop_sb [simp]:
  "formatterLoop ext (rd\<lparr>sb := x\<rparr>) tmp rb didx fs = formatterLoop ext rd tmp rb didx fs"
  by (rule formatterLoop_frame) simp_all

lemma formatterLoop_r [simp]:
  "formatterLoop ext (rd\<lparr>r := x\<rparr>) tmp rb didx fs = formatterLoop ext rd tmp rb didx fs"
  by (rule formatterLoop_frame) simp_all

lemma formatterLoop_ReadBytes [simp]:
  "formatterLoop ext (rd\<lparr>ReadBytes := x\<rparr>) tmp rb didx fs = formatterLoop ext rd tmp rb didx fs"
  by (rule formatterLoop_frame) simp_all

lemma Read_seek_error:
  assumes "iface_Seek (r rd) (state (r rd)) 0 SeekCurrent = ((offset, Some e), s1)"
  shows "Read ext rd = (([], Some e), rd\<lparr>r := (r rd)\<lparr>state := s1\<rparr>\<rparr>)"
  using assms by (simp add: Read_def)

lemma Read_read_error:
  assumes "iface_Seek (r rd) (state (r rd)) 0 SeekCurrent = ((offset, None), s1)"
      and "iface_Read (r rd) s1 (replicate 16 0) = ((p, rb, Some e), s2)"
  shows "Read ext rd = (([], Some e), rd\<lparr>r := (r rd)\<lparr>state := s2\<rparr>, sb := leftPieces ext rd offset\<rparr>)"
  using assms by (simp add: Read_def getoffsetLeft_eq getoffsetRight_eq)

lemma Read_ok:
  assumes "iface_Seek (r rd) (state (r rd)) 0 SeekCurrent = ((offset, None), s1)"
      and "iface_Read (r rd) s1 (replicate 16 0) = ((p, rb, None), s2)"
  shows "Read ext rd =
           ((linePieces ext rd offset p rb, None),
            rd\<lparr>r := (r rd)\<lparr>state := s2\<rparr>,
               ReadBytes := ReadBytes rd + word_of_int rb,
               sb := linePieces ext rd offset p rb\<rparr>)"
  using assms by (simp add: Read_def getoffsetLeft_eq getoffsetRight_eq linePieces_def Let_def)

section \<open>The line of a successful \<open>Read\<close>, column by column\<close>

lemma slice16_id: "length p = 16 \<Longrightarrow> slice16 p = p"
  by (simp add: slice16_def)

lemma Read_line:
  assumes "iface_Seek (r rd) (state (r rd)) 0 SeekCurrent = ((offset, None), s1)"
      and "iface_Read (r rd) s1 (replicate 16 0) = ((p, rb, None), s2)"
      and "length p = 16"
  shows "fst (fst (Read ext rd)) =
           leftPieces ext rd offset @
           formatterLoop ext rd p rb 0 (charFormatters rd) @
           rightPieces ext rd offset"
  by (simp add: Read_ok [OF assms(1,2)] linePieces_def slice16_id [OF assms(3)])

lemma formatterLoop_append:
  "formatterLoop ext rd tmp rb didx (fs1 @ f # fs2) =
     formatterLoop ext rd tmp rb didx fs1 @
     columns ext (colors rd) f tmp rb @
     (if int (didx + length fs1) < charFormatterCount rd - 1
      then [Marker (splitterBreak (colors rd)), Plain (Splitter rd)] else []) @
     formatterLoop ext rd tmp rb (Suc (didx + length fs1)) fs2"
  by (induction fs1 arbitrary: didx) simp_all

lemma Read_line_at:
  assumes "iface_Seek (r rd) (state (r rd)) 0 SeekCurrent = ((offset, None), s1)"
      and "iface_Read (r rd) s1 (replicate 16 0) = ((p, rb, None), s2)"
      and "length p = 16"
      and "charFormatters rd = fs1 @ f # fs2"
  shows "fst (fst (Read ext rd)) =
           leftPieces ext rd offset @
           formatterLoop ext rd p rb 0 fs1 @
           concat (map (column ext (colors rd) f p rb) [0..<16]) @
           (if int (length fs1) < charFormatterCount rd - 1
            then [Marker (splitterBreak (colors rd)), Plain (Splitter rd)] else []) @
           formatterLoop ext rd p rb (Suc (length fs1)) fs2 @
           rightPieces ext rd offset"
  by (simp add: Read_line [OF assms(1,2,3)] assms(4) formatterLoop_append columns_def)

lemma column_present_plain:
  assumes "int i < rb" and "f = ViewHex \<or> f = ViewDec \<or> f = ViewOct \<or> f = ViewBit \<or> f = ViewASCII"
  shows "column ext cs f tmp rb i =
           (if i = 8 then [Plain (asc '' '')] else []) @
           (if i = 0 \<or> tmp ! i \<noteq> tmp ! (i - 1) then [Marker (palette cs (tmp ! i))] else []) @
           [Plain (plainText (renderPresent ext cs f (tmp ! i)))] @
           separator f i"
  using assms by (auto simp add: column_def renderPresent_def)

lemma column_present_hybrid:
  assumes "int i < rb" and "f = ViewHexWithASCII \<or> f = ViewDecWithASCII"
  shows "column ext cs f tmp rb i =
           (if i = 8 then [Plain (asc '' '')] else []) @
           (if i = 0 \<or> tmp ! i \<noteq> tmp ! (i - 1) then [Marker (palette cs (tmp ! i))] else []) @
           [Marker (palette cs (tmp ! i)),
            Plain ((if f = ViewHexWithASCII then fmtInteger 16 2 (uint (tmp ! i))
                    else fmtInteger 10 3 (uint (tmp ! i))) @ asc '' ''),
            Marker (specialBreak cs),
            Plain (asc ''[''),
            Marker (hilightBreak cs),
            Plain (fmtC (asciiByteToChar ext (tmp ! i))),
            Marker (specialBreak cs),
            Plain (asc '']'')] @
           (if i < 15 then [Plain (asc '' '')] else [])"
  using assms by (auto simp add: column_def renderPresent_def separator_def)

lemma column_absent:
  assumes "\<not> int i < rb"
  shows "column ext cs f tmp rb i =
           (if i = 8 then [Plain (asc '' '')] else []) @
           (if i = 0 \<or> tmp ! i \<noteq> tmp ! (i - 1) then [Marker (palette cs 0)] else []) @
           renderAbsent f @
           separator f i"
  using assms by (auto simp add: column_def)

lemma markers_renderAbsent: "markers (renderAbsent f) = []"
  by (cases f) (simp_all add: renderAbsent_def)

lemma markers_separator: "markers (separator f i) = []"
  by (cases f) (simp_all add: separator_def)

section \<open>Facts about the sample instances\<close>

lemma fmtInteger_eval:
  "fmtInteger 16 2 9 = asc ''09''" "fmtInteger 16 2 5 = asc ''05''"
  by (simp_all add: fmtInteger_def digits.simps digitRune_def asc_def)

lemma sample_r: "r (sampleReader bs [] fs fsz) = bytesSource bs"
  and sample_ReadBytes: "ReadBytes (sampleReader bs [] fs fsz) = 0"
  using New_fields [OF New_sample [of "[]" bs fs fsz]] by simp_all

lemma failingReader_r: "r (failingReader seekErr readErr n) = failingSource seekErr readErr"
proof -
  obtain rd where new: "New sampleExtern (failingSource seekErr readErr) [OffsetHex] (Some [ViewHex]) samplePalette True 0 = Inr rd"
    using New_succeeds [of "[OffsetHex]" sampleExtern "failingSource seekErr readErr" "[ViewHex]" samplePalette True 0]
    by auto
  from New_fields(1) [OF new] new show ?thesis by (simp add: failingReader_def)
qed

lemma hexDigitsNeeded_4096: "hexDigitsNeeded 4096 = 4"
  by (simp add: hexDigitsNeeded.simps)

lemma upt_16: "[0..<16] = [0, 1, 2, 3, 4, 5, 6, 7, 8, 9, 10, 11, 12, 13, 14, 15]"
  by code_simp

lemma New_colors:
  assumes "New ext rs offs formatters pal showHdr fsz = Inr rd"
  shows "colors rd =
           \<lparr> palette = (\<lambda>idx. SetForeground ext @ AnsiColor_String ext (pal idx)),
             SplitterColor = ColorGrey93_eeeeee ext,
             OffsetColor = ColorGrey93_eeeeee ext,
             splitterBreak = SetForeground ext @ AnsiColor_verb_s ext (ColorGrey93_eeeeee ext),
             offsetBreak = SetForeground ext @ AnsiColor_verb_s ext (ColorGrey93_eeeeee ext),
             specialBreak = SetForeground ext @ AnsiColor_verb_s ext (ColorGrey35_585858 ext),
             hilightBreak = SetForeground ext @ AnsiColor_verb_s ext (ColorGrey100_ffffff ext) \<rparr>"
  using assms by (auto simp: New_def split: option.splits sum.splits)

lemma sample_colors: "colors (sampleReader bs [] fs fsz) = sampleColors"
  using New_colors [OF New_sample [of "[]" bs fs fsz]] New_colors [OF New_sample [of "[]" "[]" "[ViewHex]" 0]]
  by (simp add: sampleColors_def)

lemma sample_formatters:
  "charFormatters (sampleReader bs [] fs fsz) = fs"
  "charFormatterCount (sampleReader bs [] fs fsz) = int (length fs)"
  "offsetFormatterCount (sampleReader bs [] fs fsz) = 0"
  using New_fields(6,7,8) [OF New_sample [of "[]" bs fs fsz]] by simp_all

lemma sample_seek:
  "iface_Seek (bytesSource bs) (state (bytesSource bs)) 0 SeekCurrent = ((0, None), (bs, 0))"
  by (simp add: bytesSource_def SeekCurrent_def)

lemma sample_read:
  "0 < length bs \<Longrightarrow> length bs \<le> 16 \<Longrightarrow>
     iface_Read (bytesSource bs) (bs, 0) (replicate 16 0)
       = ((bs @ replicate (16 - length bs) 0, int (length bs), None), (bs, length bs))"
  by (simp add: bytesSource_def min_def Let_def)

lemma sample_line:
  assumes "0 < length bs" and "length bs \<le> 16"
  shows "fst (fst (Read sampleExtern (sampleReader bs [] [f] fsz))) =
           concat (map (column sampleExtern sampleColors f (bs @ replicate (16 - length bs) 0) (int (length bs)))
                     [0..<16])"
proof -
  let ?rd = "sampleReader bs [] [f] fsz"
  have sk: "iface_Seek (r ?rd) (state (r ?rd)) 0 SeekCurrent = ((0, None), (bs, 0))"
    by (simp add: sample_r sample_seek)
  have rd: "iface_Read (r ?rd) (bs, 0) (replicate 16 0)
              = ((bs @ replicate (16 - length bs) 0, int (length bs), None), (bs, length bs))"
    using sample_read [OF assms] by (simp add: sample_r)
  have len: "length (bs @ replicate (16 - length bs) 0) = 16"
    using assms by simp
  have fs: "charFormatters ?rd = [] @ f # []"
    by (simp add: sample_formatters)
  show ?thesis
    by (simp add: Read_line_at [OF sk rd len fs] sample_colors sample_formatters leftPieces_def rightPieces_def)
qed

lemma replicate_two: "replicate 2 x = [x, x]"
  by (simp add: numeral_2_eq_2)

lemma sample_texts:
  "fmtInteger 16 2 65 = asc ''41''" "fmtInteger 10 3 5 = asc ''005''"
  "fmtC (asciiByteToChar sampleExtern 65) = asc ''A''"
  by (simp_all add: fmtInteger_def digits.simps digitRune_def asc_def fmtC_def sampleExtern_def replicate_two)

section \<open>The byte counter as a number\<close>

lemma unat_add_count:
  assumes "0 \<le> rb" and "unat (x :: 64 word) + nat rb < 2 ^ 64"
  shows "unat (x + word_of_int rb) = unat x + nat rb"
proof -
  from assms have small: "nat rb < 2 ^ 64" by simp
  from assms(1) have w: "(word_of_int rb :: 64 word) = of_nat (nat rb)" by simp
  from small have u: "unat (of_nat (nat rb) :: 64 word) = nat rb"
    by (simp add: unat_of_nat)
  from assms(2) u have "unat x + unat (of_nat (nat rb) :: 64 word) < 2 ^ LENGTH(64)" by simp
  then have "unat (x + of_nat (nat rb)) = unat x + unat (of_nat (nat rb) :: 64 word)"
    by (rule unat_add_lem [THEN iffD1])
  with w u show ?thesis by simp
qed

section \<open>Claims\<close>

text \<open>
  C1: with total size 0 the percent offset is claimed to be the fixed text \<open>000.000%\<close>,
  behind an explicit guard. \<open>formatOffset\<close> has no guard: for a Reader that \<open>New\<close>
  builds with the percent formatter and size 0, the left offset column reads \<open>NaN%\<close> at
  offset 0 and \<open>+Inf%\<close> at offset 16, each padded with spaces to eight columns, and
  neither is \<open>000.000%\<close>.
\<close>

theorem percent_offset_zero_size:
  "New sampleExtern (bytesSource []) [OffsetPercent] (Some [ViewHex]) samplePalette True 0
     = Inr (sampleReader [] [OffsetPercent] [ViewHex] 0)
   \<and> fileSize (sampleReader [] [OffsetPercent] [ViewHex] 0) = 0
   \<and> plainText (fst (getoffsetLeft sampleExtern (sampleReader [] [OffsetPercent] [ViewHex] 0) 0))
       = asc ''    NaN%'' @ splitterGlyph
   \<and> plainText (fst (getoffsetLeft sampleExtern (sampleReader [] [OffsetPercent] [ViewHex] 0) 16))
       = asc ''   +Inf%'' @ splitterGlyph
   \<and> asc ''    NaN%'' \<noteq> asc ''000.000%'' \<and> asc ''   +Inf%'' \<noteq> asc ''000.000%''"
proof -
  let ?rd = "sampleReader [] [OffsetPercent] [ViewHex] 0"
  have new: "New sampleExtern (bytesSource []) [OffsetPercent] (Some [ViewHex]) samplePalette True 0 = Inr ?rd"
    by (rule New_sample) simp
  have fm: "offsetFormatterFormat ?rd OffsetPercent = Some Fmt_07_3f_pct"
    by (simp add: sampleReader_def New_def)
  note flds = New_fields [OF new]
  have "offsetText sampleExtern ?rd OffsetPercent 0 = asc ''    NaN%''"
    and "offsetText sampleExtern ?rd OffsetPercent 16 = asc ''   +Inf%''"
    by (simp_all add: offsetText_def fm flds Sprintf_def percentOf_def fmtFloat_07_3f_def asc_def)
  then show ?thesis
    using new by (simp add: getoffsetLeft_eq leftPieces_def flds) (simp add: asc_def)
qed

text \<open>
  C2, as the code has it: in the line \<open>Read\<close> returns for a 16-byte buffer \<open>p\<close> and
  count \<open>rb\<close>, the block of each configured byte formatter holds, at every column
  \<open>i\<close> from \<open>rb\<close> on, the padding of the formatter, and the only color marker of
  such a column is the palette color of byte value 0, written immediately before the
  padding exactly at column 0 and where \<open>p ! i\<close> differs from \<open>p ! (i - 1)\<close>. There
  is no color of its own for the padding.
\<close>

theorem absent_marker_is_palette_zero:
  assumes "iface_Seek (r rd) (state (r rd)) 0 SeekCurrent = ((offset, None), s1)"
      and "iface_Read (r rd) s1 (replicate 16 0) = ((p, rb, None), s2)"
      and "length p = 16"
      and "charFormatters rd = fs1 @ f # fs2"
  shows "fst (fst (Read ext rd)) =
           leftPieces ext rd offset @
           formatterLoop ext rd p rb 0 fs1 @
           concat (map (\<lambda>i.
              if int i < rb then column ext (colors rd) f p rb i
              else
                (if i = 8 then [Plain (asc '' '')] else []) @
                (if i = 0 \<or> p ! i \<noteq> p ! (i - 1) then [Marker (palette (colors rd) 0)] else []) @
                renderAbsent f @
                separator f i) [0..<16]) @
           (if int (length fs1) < charFormatterCount rd - 1
            then [Marker (splitterBreak (colors rd)), Plain (Splitter rd)] else []) @
           formatterLoop ext rd p rb (Suc (length fs1)) fs2 @
           rightPieces ext rd offset
         \<and> markers (renderAbsent f) = [] \<and> markers (separator f k) = []"
proof -
  have cols: "concat (map (column ext (colors rd) f p rb) [0..<16]) =
        concat (map (\<lambda>i.
              if int i < rb then column ext (colors rd) f p rb i
              else
                (if i = 8 then [Plain (asc '' '')] else []) @
                (if i = 0 \<or> p ! i \<noteq> p ! (i - 1) then [Marker (palette (colors rd) 0)] else []) @
                renderAbsent f @
                separator f i) [0..<16])"
    by (rule arg_cong [where f = concat], rule map_cong [OF refl])
       (simp add: column_absent)
  show ?thesis
    unfolding Read_line_at [OF assms(1-4)] cols
    by (simp add: markers_renderAbsent markers_separator)
qed

theorem absent_marker_is_palette_zero_witness:
  "take 5 (preceded (fst (fst (Read sampleExtern (sampleReader [5] [] [ViewDec] 1))))) =
     [(Some (palette sampleColors 5), asc ''005''), (None, asc '' ''),
      (Some (palette sampleColors 0), replicate 3 dagger), (None, asc '' ''),
      (None, replicate 3 dagger)]
   \<and> markers (fst (fst (Read sampleExtern (sampleReader [5] [] [ViewDec] 1)))) =
     [palette sampleColors 5, palette sampleColors 0]"
proof -
  let ?rd = "sampleReader [5] [] [ViewDec] 1"
  have rd: "iface_Read (r ?rd) ([5], 0) (replicate 16 0) = (([5] @ replicate 15 0, 1, None), ([5], 1))"
    using sample_read [of "[5]"] by (simp add: sample_r)
  have sk: "iface_Seek (r ?rd) (state (r ?rd)) 0 SeekCurrent = ((0, None), ([5], 0))"
    by (simp add: sample_r sample_seek)
  have fs: "charFormatters ?rd = [] @ ViewDec # []"
    by (simp add: sample_formatters)
  from absent_marker_is_palette_zero [OF sk rd _ fs, of sampleExtern]
  show ?thesis
    by (simp add: upt_16 sample_colors sample_formatters leftPieces_def rightPieces_def
          column_def renderPresent_def renderAbsent_def separator_def sample_texts)
qed

text \<open>
  C2 as stated fails: in the record of the single byte 5, the marker written before the
  padding of column 1 is the palette color of byte value 0, the very marker a byte 0 that
  was read gets at column 0; the lines \<open>Read\<close> returns for the sources 5 and 0 hold no
  other padding marker.
\<close>

theorem absent_marker_not_dedicated:
  "markers (column sampleExtern sampleColors ViewHex (5 # replicate 15 0) 1 1) = [palette sampleColors 0]
   \<and> markers (column sampleExtern sampleColors ViewHex (replicate 16 0) 1 0) = [palette sampleColors 0]
   \<and> markers (fst (fst (Read sampleExtern (sampleReader [5] [] [ViewHex] 1)))) =
       [palette sampleColors 5, palette sampleColors 0]
   \<and> markers (fst (fst (Read sampleExtern (sampleReader [0] [] [ViewHex] 1)))) =
       [palette sampleColors 0]"
  by (simp add: sample_line upt_16 column_def renderPresent_def renderAbsent_def separator_def)

text \<open>
  C3: the header is claimed to label the columns of all seven byte formatters at the
  data width. The switch of \<open>Header\<close> has no case for the two formatters with ASCII: it
  writes no label for them, and the header of a Reader with one of them alone is the
  line break only, while their data columns are 6 and 7 wide.
\<close>

theorem header_hybrid_no_labels:
  "headerLabels ViewHexWithASCII = [] \<and> headerLabels ViewDecWithASCII = []
   \<and> plainText (Header (sampleReader [] [] [ViewHexWithASCII] 0)) = [10]
   \<and> plainText (Header (sampleReader [] [] [ViewDecWithASCII] 0)) = [10]
   \<and> declaredWidth ViewHexWithASCII = 6 \<and> declaredWidth ViewDecWithASCII = 7"
proof -
  have a: "New sampleExtern (bytesSource []) [] (Some [ViewHexWithASCII]) samplePalette True 0
             = Inr (sampleReader [] [] [ViewHexWithASCII] 0)"
    and b: "New sampleExtern (bytesSource []) [] (Some [ViewDecWithASCII]) samplePalette True 0
             = Inr (sampleReader [] [] [ViewDecWithASCII] 0)"
    by (rule New_sample, simp)+
  show ?thesis
    using New_fields(4,6,7,8) [OF a] New_fields(4,6,7,8) [OF b]
    by (simp add: Header_def headerLabels_def declaredWidth_def)
qed

text \<open>
  C4: in the line \<open>Read\<close> returns for a 16-byte buffer \<open>p\<close> and count \<open>rb\<close>, the
  block of the hex formatter (and likewise of dec, oct, bit and ascii), wherever it
  stands among the configured formatters, holds at every column \<open>i < rb\<close> the palette
  marker of the byte immediately before the byte's text exactly when \<open>i = 0\<close> or
  \<open>p ! i\<close> differs from \<open>p ! (i - 1)\<close>, and no marker otherwise. For the source
  5, 5, 5, 9 the markers stand before columns 0 and 3 and not before 1 and 2 (the
  witness).
\<close>

theorem hex_marker_on_change:
  assumes "iface_Seek (r rd) (state (r rd)) 0 SeekCurrent = ((offset, None), s1)"
      and "iface_Read (r rd) s1 (replicate 16 0) = ((p, rb, None), s2)"
      and "length p = 16"
      and "charFormatters rd = fs1 @ f # fs2"
      and "f = ViewHex \<or> f = ViewDec \<or> f = ViewOct \<or> f = ViewBit \<or> f = ViewASCII"
  shows "fst (fst (Read ext rd)) =
           leftPieces ext rd offset @
           formatterLoop ext rd p rb 0 fs1 @
           concat (map (\<lambda>i.
              if int i < rb then
                (if i = 8 then [Plain (asc '' '')] else []) @
                (if i = 0 \<or> p ! i \<noteq> p ! (i - 1) then [Marker (palette (colors rd) (p ! i))] else []) @
                [Plain (plainText (renderPresent ext (colors rd) f (p ! i)))] @
                separator f i
              else column ext (colors rd) f p rb i) [0..<16]) @
           (if int (length fs1) < charFormatterCount rd - 1
            then [Marker (splitterBreak (colors rd)), Plain (Splitter rd)] else []) @
           formatterLoop ext rd p rb (Suc (length fs1)) fs2 @
           rightPieces ext rd offset
         \<and> plainText (renderPresent ext (colors rd) ViewHex (p ! i)) = fmtInteger 16 2 (uint (p ! i))"
proof -
  have cols: "concat (map (column ext (colors rd) f p rb) [0..<16]) =
        concat (map (\<lambda>i.
              if int i < rb then
                (if i = 8 then [Plain (asc '' '')] else []) @
                (if i = 0 \<or> p ! i \<noteq> p ! (i - 1) then [Marker (palette (colors rd) (p ! i))] else []) @
                [Plain (plainText (renderPresent ext (colors rd) f (p ! i)))] @
                separator f i
              else column ext (colors rd) f p rb i) [0..<16])"
    by (rule arg_cong [where f = concat], rule map_cong [OF refl])
       (simp add: column_present_plain [OF _ assms(5)])
  show ?thesis
    unfolding Read_line_at [OF assms(1-4)] cols by (simp add: renderPresent_def)
qed

theorem hex_marker_on_change_witness:
  "take 9 (preceded (fst (fst (Read sampleExtern (sampleReader [5, 5, 5, 9] [] [ViewHex] 4))))) =
     [(Some (palette sampleColors 5), asc ''05''), (None, asc '' ''),
      (None, asc ''05''), (None, asc '' ''),
      (None, asc ''05''), (None, asc '' ''),
      (Some (palette sampleColors 9), asc ''09''), (None, asc '' ''),
      (Some (palette sampleColors 0), replicate 2 dagger)]
   \<and> markers (fst (fst (Read sampleExtern (sampleReader [5, 5, 5, 9] [] [ViewHex] 4)))) =
     [palette sampleColors 5, palette sampleColors 9, palette sampleColors 0]"
proof -
  let ?rd = "sampleReader [5, 5, 5, 9] [] [ViewHex] 4"
  have rd: "iface_Read (r ?rd) ([5, 5, 5, 9], 0) (replicate 16 0)
              = (([5, 5, 5, 9] @ replicate 12 0, 4, None), ([5, 5, 5, 9], 4))"
    using sample_read [of "[5, 5, 5, 9]"] by (simp add: sample_r)
  have sk: "iface_Seek (r ?rd) (state (r ?rd)) 0 SeekCurrent = ((0, None), ([5, 5, 5, 9], 0))"
    by (simp add: sample_r sample_seek)
  have fs: "charFormatters ?rd = [] @ ViewHex # []"
    by (simp add: sample_formatters)
  from hex_marker_on_change [OF sk rd _ fs, of sampleExtern]
  show ?thesis
    by (simp add: upt_16 sample_colors sample_formatters leftPieces_def rightPieces_def
          column_def renderPresent_def renderAbsent_def separator_def fmtInteger_eval)
qed

text \<open>
  C5: for every byte value and each of the seven byte formatters, the text written for a
  byte that was read, color markers left out, has exactly the width the spec declares for
  the formatter: hex 2, dec 3, oct 3, bit 8, ascii 1, hex-with-ascii 6, dec-with-ascii 7.
\<close>

theorem renderPresent_width:
  "length (plainText (renderPresent ext cs f b)) = declaredWidth f"
  by (cases f)
    (simp_all add: renderPresent_def declaredWidth_def length_fmtInteger_byte length_fmtC asc_def)

text \<open>
  C6: every byte formatter is claimed to pad the columns past the read count with a
  placeholder as wide as a byte that was read. The padding switch has no case for
  \<open>ViewBit\<close>: such a column holds the separating space only (nothing at column 15),
  while a byte that was read takes 8 columns.
\<close>

theorem bit_placeholder_missing:
  "renderAbsent ViewBit = []
   \<and> plainText (column ext cs ViewBit tmp 5 7) = asc '' ''
   \<and> plainText (column ext cs ViewBit tmp 5 15) = []
   \<and> length (plainText (renderPresent ext cs ViewBit b)) = 8"
  by (simp add: renderAbsent_def column_def separator_def renderPresent_def length_fmtInteger_byte)

text \<open>
  C7: for a Reader \<open>New\<close> returns and a total size that is not negative, the widths of
  the hex, dec and oct offset formatters in use are all the number of hexadecimal digits
  of the size: the \<open>k\<close> with \<open>16 ^ (k - 1) \<le> size < 16 ^ k\<close>, and 1 for size 0.
\<close>

theorem New_offset_widths:
  assumes "New ext rs offs formatters pal showHdr filesize = Inr rd"
      and "0 \<le> filesize"
      and "f \<in> set offs"
      and "f = OffsetHex \<or> f = OffsetDec \<or> f = OffsetOct"
  shows "offsetFormatterWidth rd f = Some (hexDigitsNeeded (nat filesize))
         \<and> nat filesize < 16 ^ hexDigitsNeeded (nat filesize)
         \<and> (filesize = 0 \<or> 16 ^ (hexDigitsNeeded (nat filesize) - 1) \<le> nat filesize)"
proof -
  from assms(1) obtain wm fm where
    tabs: "offsetTables filesize offs Map.empty Map.empty = Inr (wm, fm)" and
    wm: "offsetFormatterWidth rd = wm"
    by (auto simp: New_def split: option.splits sum.splits)
  from offsetTables_width [OF tabs assms(3) _ assms(4)]
  have "wm f = Some (length (fmtInteger 16 0 filesize))" by simp
  with wm assms(2) have "offsetFormatterWidth rd f = Some (hexDigitsNeeded (nat filesize))"
    by (simp add: length_fmtInteger_x)
  moreover have "filesize = 0 \<or> 16 ^ (hexDigitsNeeded (nat filesize) - 1) \<le> nat filesize"
    using assms(2) hexDigitsNeeded_lower [of "nat filesize"] by (cases "filesize = 0") auto
  ultimately show ?thesis
    using hexDigitsNeeded_upper [of "nat filesize"] by simp
qed

theorem New_offset_widths_witness:
  "New sampleExtern (bytesSource []) [OffsetDec, OffsetHex, OffsetOct] (Some [ViewHex]) samplePalette True 4096
     = Inr (sampleReader [] [OffsetDec, OffsetHex, OffsetOct] [ViewHex] 4096)
   \<and> offsetFormatterWidth (sampleReader [] [OffsetDec, OffsetHex, OffsetOct] [ViewHex] 4096) OffsetHex = Some 4
   \<and> offsetFormatterWidth (sampleReader [] [OffsetDec, OffsetHex, OffsetOct] [ViewHex] 4096) OffsetDec = Some 4
   \<and> offsetFormatterWidth (sampleReader [] [OffsetDec, OffsetHex, OffsetOct] [ViewHex] 4096) OffsetOct = Some 4"
proof -
  have new: "New sampleExtern (bytesSource []) [OffsetDec, OffsetHex, OffsetOct] (Some [ViewHex]) samplePalette True 4096
               = Inr (sampleReader [] [OffsetDec, OffsetHex, OffsetOct] [ViewHex] 4096)"
    by (rule New_sample) simp
  from New_offset_widths [OF new, of OffsetHex] New_offset_widths [OF new, of OffsetDec]
       New_offset_widths [OF new, of OffsetOct] new
  show ?thesis by (simp add: hexDigitsNeeded_4096)
qed

text \<open>
  C8: when the position query succeeds and the source's read returns the count \<open>rb\<close>
  with no error, \<open>Read\<close> returns no error and \<open>ReadBytes\<close> grows by \<open>rb\<close>: in
  uint64 arithmetic always, and as a number when \<open>rb\<close> is not negative and the sum is
  below \<open>2 ^ 64\<close>. After one call on a 5-byte source the counter is 5 (the witness).
\<close>

theorem Read_adds_count:
  assumes "iface_Seek (r rd) (state (r rd)) 0 SeekCurrent = ((offset, None), s1)"
      and "iface_Read (r rd) s1 (replicate 16 0) = ((p, rb, None), s2)"
  shows "snd (fst (Read ext rd)) = None
         \<and> ReadBytes (snd (Read ext rd)) = ReadBytes rd + word_of_int rb
         \<and> (0 \<le> rb \<and> unat (ReadBytes rd) + nat rb < 2 ^ 64
              \<longrightarrow> unat (ReadBytes (snd (Read ext rd))) = unat (ReadBytes rd) + nat rb)"
  by (simp add: Read_ok [OF assms] unat_add_count)

theorem Read_adds_count_witness:
  "iface_Seek (bytesSource [1, 2, 3, 4, 5]) (state (bytesSource [1, 2, 3, 4, 5])) 0 SeekCurrent
     = ((0, None), ([1, 2, 3, 4, 5], 0))
   \<and> iface_Read (bytesSource [1, 2, 3, 4, 5]) ([1, 2, 3, 4, 5], 0) (replicate 16 0)
     = (([1, 2, 3, 4, 5] @ replicate 11 0, 5, None), ([1, 2, 3, 4, 5], 5))
   \<and> snd (fst (Read sampleExtern (sampleReader [1, 2, 3, 4, 5] [] [ViewHex] 5))) = None
   \<and> ReadBytes (snd (Read sampleExtern (sampleReader [1, 2, 3, 4, 5] [] [ViewHex] 5))) = 5
   \<and> unat (ReadBytes (snd (Read sampleExtern (sampleReader [1, 2, 3, 4, 5] [] [ViewHex] 5)))) = 5"
proof -
  let ?rd = "sampleReader [1, 2, 3, 4, 5] [] [ViewHex] 5"
  have seek: "iface_Seek (bytesSource [1, 2, 3, 4, 5]) (state (bytesSource [1, 2, 3, 4, 5])) 0 SeekCurrent
                = ((0, None), ([1, 2, 3, 4, 5], 0))"
    by (simp add: bytesSource_def SeekCurrent_def)
  have rd: "iface_Read (bytesSource [1, 2, 3, 4, 5]) ([1, 2, 3, 4, 5], 0) (replicate 16 0)
                = (([1, 2, 3, 4, 5] @ replicate 11 0, 5, None), ([1, 2, 3, 4, 5], 5))"
    by (simp add: bytesSource_def)
  from Read_adds_count [of ?rd 0 "([1, 2, 3, 4, 5], 0)" "[1, 2, 3, 4, 5] @ replicate 11 0" 5
                           "([1, 2, 3, 4, 5], 5)" sampleExtern]
       seek rd
  show ?thesis by (simp add: sample_r sample_ReadBytes)
qed

text \<open>
  C9: when the position query fails, or it succeeds and the source's read fails, with
  the error \<open>e\<close>, \<open>Read\<close> returns the empty string and \<open>e\<close>, and \<open>ReadBytes\<close> is
  what it was before the call.
\<close>

theorem Read_error_keeps_count:
  assumes "iface_Seek (r rd) (state (r rd)) 0 SeekCurrent = ((offset, serr), s1)"
      and "iface_Read (r rd) s1 (replicate 16 0) = ((p, rb, rerr), s2)"
      and "serr = Some e \<or> (serr = None \<and> rerr = Some e)"
  shows "fst (Read ext rd) = ([], Some e) \<and> String (fst (fst (Read ext rd))) = []
         \<and> ReadBytes (snd (Read ext rd)) = ReadBytes rd"
proof (cases serr)
  case (Some a)
  with assms(3) have "serr = Some e" by simp
  with assms(1) show ?thesis by (simp add: Read_seek_error String_def)
next
  case None
  with assms(3) have "rerr = Some e" by simp
  with None assms(1,2) show ?thesis by (simp add: Read_read_error String_def)
qed

theorem Read_error_keeps_count_witness:
  "fst (Read sampleExtern (failingReader (Some (IOError 29)) None 48)) = ([], Some (IOError 29))
   \<and> ReadBytes (snd (Read sampleExtern (failingReader (Some (IOError 29)) None 48))) = 48
   \<and> fst (Read sampleExtern (failingReader None (Some EOF) 48)) = ([], Some EOF)
   \<and> ReadBytes (snd (Read sampleExtern (failingReader None (Some EOF) 48))) = 48"
proof -
  have a: "iface_Seek (failingSource (Some (IOError 29)) None) (state (failingSource (Some (IOError 29)) None)) 0 SeekCurrent
             = ((0, Some (IOError 29)), ())"
    and b: "iface_Read (failingSource (Some (IOError 29)) None) () (replicate 16 0) = ((replicate 16 0, 0, None), ())"
    and c: "iface_Seek (failingSource None (Some EOF)) (state (failingSource None (Some EOF))) 0 SeekCurrent
             = ((0, None), ())"
    and d: "iface_Read (failingSource None (Some EOF)) () (replicate 16 0) = ((replicate 16 0, 0, Some EOF), ())"
    by (simp_all add: failingSource_def)
  have rb: "\<And>x y. ReadBytes (failingReader x y 48) = 48"
    by (simp add: failingReader_def)
  from Read_error_keeps_count [of "failingReader (Some (IOError 29)) None 48" 0 "Some (IOError 29)" "()"
         "replicate 16 0" 0 None "()" "IOError 29" sampleExtern]
       Read_error_keeps_count [of "failingReader None (Some EOF) 48" 0 None "()"
         "replicate 16 0" 0 "Some EOF" "()" EOF sampleExtern]
       a b c d
  show ?thesis by (simp add: failingReader_r rb)
qed

text \<open>
  C10: in the line \<open>Read\<close> returns for a 16-byte buffer \<open>p\<close> and count \<open>rb\<close>, the
  block of the hex-with-ascii or dec-with-ascii formatter, wherever it stands among the
  configured formatters, holds at every column \<open>i < rb\<close> the palette marker of the byte
  immediately before the byte's number, whether or not the byte equals the previous
  column's. The shared marker of the change check comes before it, only at column 0 or
  on a change.
\<close>

theorem hybrid_marker_every_byte:
  assumes "iface_Seek (r rd) (state (r rd)) 0 SeekCurrent = ((offset, None), s1)"
      and "iface_Read (r rd) s1 (replicate 16 0) = ((p, rb, None), s2)"
      and "length p = 16"
      and "charFormatters rd = fs1 @ f # fs2"
      and "f = ViewHexWithASCII \<or> f = ViewDecWithASCII"
  shows "fst (fst (Read ext rd)) =
           leftPieces ext rd offset @
           formatterLoop ext rd p rb 0 fs1 @
           concat (map (\<lambda>i.
              if int i < rb then
                (if i = 8 then [Plain (asc '' '')] else []) @
                (if i = 0 \<or> p ! i \<noteq> p ! (i - 1) then [Marker (palette (colors rd) (p ! i))] else []) @
                [Marker (palette (colors rd) (p ! i)),
                 Plain ((if f = ViewHexWithASCII then fmtInteger 16 2 (uint (p ! i))
                         else fmtInteger 10 3 (uint (p ! i))) @ asc '' ''),
                 Marker (specialBreak (colors rd)),
                 Plain (asc ''[''),
                 Marker (hilightBreak (colors rd)),
                 Plain (fmtC (asciiByteToChar ext (p ! i))),
                 Marker (specialBreak (colors rd)),
                 Plain (asc '']'')] @
                (if i < 15 then [Plain (asc '' '')] else [])
              else column ext (colors rd) f p rb i) [0..<16]) @
           (if int (length fs1) < charFormatterCount rd - 1
            then [Marker (splitterBreak (colors rd)), Plain (Splitter rd)] else []) @
           formatterLoop ext rd p rb (Suc (length fs1)) fs2 @
           rightPieces ext rd offset"
proof -
  have cols: "concat (map (column ext (colors rd) f p rb) [0..<16]) =
        concat (map (\<lambda>i.
              if int i < rb then
                (if i = 8 then [Plain (asc '' '')] else []) @
                (if i = 0 \<or> p ! i \<noteq> p ! (i - 1) then [Marker (palette (colors rd) (p ! i))] else []) @
                [Marker (palette (colors rd) (p ! i)),
                 Plain ((if f = ViewHexWithASCII then fmtInteger 16 2 (uint (p ! i))
                         else fmtInteger 10 3 (uint (p ! i))) @ asc '' ''),
                 Marker (specialBreak (colors rd)),
                 Plain (asc ''[''),
                 Marker (hilightBreak (colors rd)),
                 Plain (fmtC (asciiByteToChar ext (p ! i))),
                 Marker (specialBreak (colors rd)),
                 Plain (asc '']'')] @
                (if i < 15 then [Plain (asc '' '')] else [])
              else column ext (colors rd) f p rb i) [0..<16])"
    by (rule arg_cong [where f = concat], rule map_cong [OF refl])
       (simp add: column_present_hybrid [OF _ assms(5)])
  show ?thesis
    unfolding Read_line_at [OF assms(1-4)] cols by simp
qed

theorem hybrid_marker_every_byte_witness:
  "take 6 (preceded (fst (fst (Read sampleExtern (sampleReader [65, 65, 66] [] [ViewHexWithASCII] 3))))) =
     [(Some (palette sampleColors 65), asc ''41'' @ asc '' ''),
      (Some (specialBreak sampleColors), asc ''[''),
      (Some (hilightBreak sampleColors), asc ''A''),
      (Some (specialBreak sampleColors), asc '']''),
      (None, asc '' ''),
      (Some (palette sampleColors 65), asc ''41'' @ asc '' '')]
   \<and> markers (fst (fst (Read sampleExtern (sampleReader [65, 65, 66] [] [ViewDecWithASCII] 3)))) =
     [palette sampleColors 65, palette sampleColors 65,
      specialBreak sampleColors, hilightBreak sampleColors, specialBreak sampleColors,
      palette sampleColors 65,
      specialBreak sampleColors, hilightBreak sampleColors, specialBreak sampleColors,
      palette sampleColors 66, palette sampleColors 66,
      specialBreak sampleColors, hilightBreak sampleColors, specialBreak sampleColors,
      palette sampleColors 0]"
proof -
  let ?h = "sampleReader [65, 65, 66] [] [ViewHexWithASCII] 3"
  let ?d = "sampleReader [65, 65, 66] [] [ViewDecWithASCII] 3"
  have rdh: "iface_Read (r ?h) ([65, 65, 66], 0) (replicate 16 0)
              = (([65, 65, 66] @ replicate 13 0, 3, None), ([65, 65, 66], 3))"
    and rdd: "iface_Read (r ?d) ([65, 65, 66], 0) (replicate 16 0)
              = (([65, 65, 66] @ replicate 13 0, 3, None), ([65, 65, 66], 3))"
    using sample_read [of "[65, 65, 66]"] by (simp_all add: sample_r)
  have skh: "iface_Seek (r ?h) (state (r ?h)) 0 SeekCurrent = ((0, None), ([65, 65, 66], 0))"
    and skd: "iface_Seek (r ?d) (state (r ?d)) 0 SeekCurrent = ((0, None), ([65, 65, 66], 0))"
    by (simp_all add: sample_r sample_seek)
  have fsh: "charFormatters ?h = [] @ ViewHexWithASCII # []"
    and fsd: "charFormatters ?d = [] @ ViewDecWithASCII # []"
    by (simp_all add: sample_formatters)
  from hybrid_marker_every_byte [OF skh rdh _ fsh, of sampleExtern]
       hybrid_marker_every_byte [OF skd rdd _ fsd, of sampleExtern]
  show ?thesis
    by (simp add: upt_16 sample_colors sample_formatters leftPieces_def rightPieces_def
          column_def renderAbsent_def separator_def sample_texts)
qed

end
